theory Spec2Isabelle
  imports Main
begin

section \<open>Site_Checker: the data of \<open>types.ts\<close> and \<open>index.ts\<close>\<close>

text \<open>
  \<^verbatim>\<open>export enum STATUS { COOLDOWN, WAIT, READY, GAVE_UP }\<close>
  A numeric TypeScript enum: at run time its members are the numbers 0, 1, 2, 3, and the
  \<^verbatim>\<open>switch\<close> of \<^verbatim>\<open>handler\<close> compares numbers.
\<close>

datatype STATUS = COOLDOWN | WAIT | READY | GAVE_UP

fun STATUS_value :: "STATUS \<Rightarrow> nat" where
  "STATUS_value COOLDOWN = 0"
| "STATUS_value WAIT = 1"
| "STATUS_value READY = 2"
| "STATUS_value GAVE_UP = 3"

text \<open>
  \<^verbatim>\<open>export interface Site\<close>. The two durations are milliseconds; they are only ever
  handed to \<^verbatim>\<open>setTimeout\<close> and interpolated into messages, so they are kept as integers.
  Strings are lists of characters, a character standing for one code unit of the
  JavaScript string.
\<close>

record Site =
  name :: string
  url :: string
  textMatch :: string
  interval :: int
  msgCooldown :: int
  status :: STATUS

definition ATTEMPTS_BEFORE_GIVING_UP :: nat where
  "ATTEMPTS_BEFORE_GIVING_UP = 3"

definition MINUTES :: int where
  "MINUTES = 1000 * 60"

definition HOURS :: int where
  "HOURS = 1000 * 60 * 60"

text \<open>The one entry of \<^verbatim>\<open>const sites: Site[]\<close>, and the list.\<close>

definition LibTheatreRoom :: Site where
  "LibTheatreRoom =
     \<lparr>name = ''LibTheatreRoom'',
      url = ''https://byu.libcal.com/reserve/mediaviewroomss'',
      textMatch = ''This resource is temporarily unavailable.'',
      interval = 5 * MINUTES,
      msgCooldown = 4 * HOURS,
      status = READY\<rparr>"

definition sites :: "Site list" where
  "sites = [LibTheatreRoom]"

subsection \<open>The table \<open>failedAttempts\<close>\<close>

text \<open>
  \<^verbatim>\<open>const failedAttempts: Record<string, number> = {}\<close> is a plain object. The value read
  under a key is a number, or it is not one: \<^verbatim>\<open>undefined\<close> for a key never written, and
  the prototype object under the key \<^verbatim>\<open>__proto__\<close>, which an assignment of a number does
  not change. A number in the table is a count (it starts at 0 and is only ever
  incremented) or \<^verbatim>\<open>NaN\<close>, which is what \<^verbatim>\<open>++\<close> stores when the value it reads is not
  a number. Counts are natural numbers: the doubles of JavaScript are exact below
  \<open>2^53\<close>.
\<close>

datatype counter = Count nat | NaN

type_synonym attempts = "string \<Rightarrow> counter option"

definition prop_get :: "attempts \<Rightarrow> string \<Rightarrow> counter option" where
  "prop_get fa k = (if k = ''__proto__'' then None else fa k)"

definition prop_set :: "attempts \<Rightarrow> string \<Rightarrow> counter \<Rightarrow> attempts" where
  "prop_set fa k v = (if k = ''__proto__'' then fa else fa(k \<mapsto> v))"

text \<open>The value \<^verbatim>\<open>x + 1\<close> that \<^verbatim>\<open>x++\<close> stores.\<close>

fun incremented :: "counter option \<Rightarrow> counter" where
  "incremented (Some (Count n)) = Count (n + 1)"
| "incremented (Some NaN) = NaN"
| "incremented None = NaN"

text \<open>\<^verbatim>\<open>x === n\<close> and \<^verbatim>\<open>x > n\<close> for a value read from the table.\<close>

fun strictly_equals :: "counter option \<Rightarrow> nat \<Rightarrow> bool" where
  "strictly_equals (Some (Count m)) n = (m = n)"
| "strictly_equals (Some NaN) n = False"
| "strictly_equals None n = False"

fun greater_than :: "counter option \<Rightarrow> nat \<Rightarrow> bool" where
  "greater_than (Some (Count m)) n = (m > n)"
| "greater_than (Some NaN) n = False"
| "greater_than None n = False"

subsection \<open>What a check cycle meets and what it leaves behind\<close>

text \<open>
  The collaborators are outside the program: \<^verbatim>\<open>fetch\<close> rejects with an error or
  resolves to a response with a status code, whose \<^verbatim>\<open>text()\<close> rejects or resolves to
  the body; \<^verbatim>\<open>transporter.sendMail\<close> resolves or rejects. An error is kept as the
  string its \<^verbatim>\<open>toString()\<close> gives.
\<close>

datatype body_outcome = Text string | TextRejects string

datatype fetch_outcome = FetchRejects string | Response nat body_outcome

record world =
  fetched :: fetch_outcome
  mail_accepted :: bool

text \<open>
  The second argument of \<^verbatim>\<open>checkErrorHandler\<close>: a caught error, or the string
  \<^verbatim>\<open>`Status code on HTTP request was ${res.status}, not 200`\<close>.
\<close>

datatype reason = Thrown string | Status_not_200 nat

text \<open>
  The three mails the program writes. Subject and text are template strings; an alert
  keeps which template it is and the values interpolated into it:
  \<^item> \<open>Failed_once\<close>: \<^verbatim>\<open>`Content Check for ${site.name} failed (once)`\<close>, with the site's
    url, the reason and \<^verbatim>\<open>site.msgCooldown\<close> in the text;
  \<^item> \<open>Giving_up\<close>: \<^verbatim>\<open>`Content Check for ${site.name} failed ${ATTEMPTS_BEFORE_GIVING_UP} times, we're giving up.`\<close>,
    with the site's url and the reason in the text;
  \<^item> \<open>Contents_changed\<close>: \<^verbatim>\<open>`Contents have changed for ${site.name}!`\<close>, with the
    site's url and \<^verbatim>\<open>site.textMatch\<close> in the text.
\<close>

datatype alert =
    Failed_once string string reason int
  | Giving_up string nat string reason
  | Contents_changed string string string

text \<open>The calls of the logger, one constructor for each call in \<open>index.ts\<close>.\<close>

datatype level = DEBUG | INFO | WARN | ERROR

datatype message =
    Sending_message alert
  | Message_sent alert
  | Fetch_call_failed string
  | Bad_status_code nat string
  | Parse_failed string string
  | Logged reason
  | Making_request string
  | Request_complete string
  | No_text_match string
  | Found_text_match string
  | Check_initiated string
  | Got_cooldown int
  | Got_wait int
  | Got_ready
  | Got_gave_up
  | Default_case string nat
  | Env_vars_missing
  | Initializing_transport
  | Transport_initialized
  | Verifying_transport
  | Transport_authorized
  | Authorization_failed
  | Logged_error string
  | Iterating_sites
  | Setting_listener string
  | Emitting_initial string
  | Timeout_reached string

type_synonym log_line = "level \<times> message"

text \<open>
  The effects of a piece of the program: the logger calls it made, the alerts it handed to
  \<^verbatim>\<open>transporter.sendMail\<close>, and the promises of \<^verbatim>\<open>sendAlert\<close> that rejected. No caller
  awaits \<^verbatim>\<open>sendAlert\<close> or attaches a handler to its promise, so each rejection stays
  unhandled.
\<close>

record effects =
  logged :: "log_line list"
  mailed :: "alert list"
  unhandled_rejections :: "alert list"

definition no_effects :: effects where
  "no_effects = \<lparr>logged = [], mailed = [], unhandled_rejections = []\<rparr>"

definition logger :: "level \<Rightarrow> message \<Rightarrow> effects" where
  "logger l m = \<lparr>logged = [(l, m)], mailed = [], unhandled_rejections = []\<rparr>"

definition and_then :: "effects \<Rightarrow> effects \<Rightarrow> effects" where
  "and_then e f =
     \<lparr>logged = logged e @ logged f,
      mailed = mailed e @ mailed f,
      unhandled_rejections = unhandled_rejections e @ unhandled_rejections f\<rparr>"

section \<open>The check cycle\<close>

text \<open>
  \<^verbatim>\<open>html.includes(site.textMatch)\<close>: the pattern occurs in the text at some position.
\<close>

fun includes_text :: "string \<Rightarrow> string \<Rightarrow> bool" where
  "includes_text [] pat = (pat = [])"
| "includes_text (c # cs) pat = (take (length pat) (c # cs) = pat \<or> includes_text cs pat)"

text \<open>
  \<^verbatim>\<open>sendAlert\<close>: a debug line, the mail handed to the transport, and a second debug line
  only when the transport accepted it; when \<^verbatim>\<open>sendMail\<close> rejects, the \<^verbatim>\<open>await\<close> throws
  and the promise of \<^verbatim>\<open>sendAlert\<close> rejects.
\<close>

definition sendAlert :: "alert \<Rightarrow> bool \<Rightarrow> effects" where
  "sendAlert a accepted =
     \<lparr>logged = (DEBUG, Sending_message a) # (if accepted then [(DEBUG, Message_sent a)] else []),
      mailed = [a],
      unhandled_rejections = (if accepted then [] else [a])\<rparr>"

text \<open>
  \<^verbatim>\<open>checkErrorHandler(site, e, msg)\<close>, with the table passed in and returned.
\<close>

definition checkErrorHandler ::
  "Site \<Rightarrow> reason \<Rightarrow> message \<Rightarrow> attempts \<Rightarrow> bool \<Rightarrow> STATUS \<times> attempts \<times> effects" where
  "checkErrorHandler site e msg fa accepted =
     (let errors = and_then (logger ERROR msg) (logger ERROR (Logged e));
          fa' = prop_set fa (name site) (incremented (prop_get fa (name site)))
      in if strictly_equals (prop_get fa' (name site)) 1 then
           (COOLDOWN, fa',
            and_then errors
              (sendAlert (Failed_once (name site) (url site) e (msgCooldown site)) accepted))
         else if greater_than (prop_get fa' (name site)) ATTEMPTS_BEFORE_GIVING_UP then
           (GAVE_UP, fa',
            and_then errors
              (sendAlert (Giving_up (name site) ATTEMPTS_BEFORE_GIVING_UP (url site) e) accepted))
         else (COOLDOWN, fa', errors))"

text \<open>\<^verbatim>\<open>check(site)\<close>: the effects of the lines before a call of the error handler come first.\<close>

definition after :: "effects \<Rightarrow> STATUS \<times> attempts \<times> effects \<Rightarrow> STATUS \<times> attempts \<times> effects" where
  "after e r = (case r of (s, fa, f) \<Rightarrow> (s, fa, and_then e f))"

definition check :: "Site \<Rightarrow> attempts \<Rightarrow> world \<Rightarrow> STATUS \<times> attempts \<times> effects" where
  "check site fa w =
     (case fetched w of
        FetchRejects e \<Rightarrow>
          after (logger DEBUG (Making_request (url site)))
            (checkErrorHandler site (Thrown e) (Fetch_call_failed (name site)) fa (mail_accepted w))
      | Response code body \<Rightarrow>
          let arrived = and_then (logger DEBUG (Making_request (url site)))
                                 (logger DEBUG (Request_complete (url site)))
          in if code \<noteq> 200 then
               after arrived
                 (checkErrorHandler site (Status_not_200 code) (Bad_status_code code (url site))
                    fa (mail_accepted w))
             else
               (case body of
                  TextRejects e \<Rightarrow>
                    after arrived
                      (checkErrorHandler site (Thrown e) (Parse_failed (name site) (url site))
                         fa (mail_accepted w))
                | Text html \<Rightarrow>
                    if \<not> includes_text html (textMatch site) then
                      (COOLDOWN, fa,
                       and_then arrived
                         (and_then (logger WARN (No_text_match (name site)))
                            (sendAlert
                               (Contents_changed (name site) (url site) (textMatch site))
                               (mail_accepted w))))
                    else
                      (WAIT, fa, and_then arrived (logger INFO (Found_text_match (name site))))))"

text \<open>
  \<^verbatim>\<open>handler(site)\<close>. What the \<^verbatim>\<open>switch\<close> does with the timer and the process is its
  action: \<^verbatim>\<open>setTimeout(checkCallback, delay)\<close>, an immediate \<^verbatim>\<open>checkCallback()\<close>,
  nothing, or \<^verbatim>\<open>process.exit(1)\<close>. The \<^verbatim>\<open>switch\<close> is on a number.
\<close>

datatype action = SetTimeout int | CallNow | NoCallback | ProcessExit nat

definition handler_switch :: "Site \<Rightarrow> nat \<Rightarrow> effects \<times> action" where
  "handler_switch site st =
     (if st = STATUS_value COOLDOWN then
        (logger DEBUG (Got_cooldown (msgCooldown site)), SetTimeout (msgCooldown site))
      else if st = STATUS_value WAIT then
        (logger DEBUG (Got_wait (interval site)), SetTimeout (interval site))
      else if st = STATUS_value READY then
        (logger DEBUG Got_ready, CallNow)
      else if st = STATUS_value GAVE_UP then
        (logger DEBUG Got_gave_up, NoCallback)
      else
        (logger ERROR (Default_case (name site) st), ProcessExit 1))"

definition handler :: "Site \<Rightarrow> attempts \<Rightarrow> world \<Rightarrow> attempts \<times> effects \<times> action" where
  "handler site fa w =
     (case check site fa w of
        (st, fa', e) \<Rightarrow>
          (case handler_switch site (STATUS_value st) of
             (f, a) \<Rightarrow>
               (fa', and_then (logger INFO (Check_initiated (name site))) (and_then e f), a)))"

section \<open>The scheduler: listeners, timers and the start of the process\<close>

text \<open>
  The state of the running process: the table, the listeners registered on the event
  emitter (\<^verbatim>\<open>eventEmitter.on(site.name, callback)\<close>, in the order of registration, each
  callback running \<^verbatim>\<open>handler(site)\<close>), the timers set and not yet fired (each will run
  the \<^verbatim>\<open>checkCallback\<close> of its site), the calls of \<^verbatim>\<open>handler\<close> that wait for their
  \<^verbatim>\<open>fetch\<close>, everything done so far, and the exit code once \<^verbatim>\<open>process.exit\<close> was called.
\<close>

record system =
  failedAttempts :: attempts
  listeners :: "(string \<times> Site) list"
  timers :: "(int \<times> Site) list"
  in_flight :: "Site list"
  trace :: effects
  exited :: "nat option"

definition initial :: system where
  "initial =
     \<lparr>failedAttempts = Map.empty, listeners = [], timers = [], in_flight = [],
      trace = no_effects, exited = None\<rparr>"

definition does :: "effects \<Rightarrow> system \<Rightarrow> system" where
  "does e sys = sys\<lparr>trace := and_then (trace sys) e\<rparr>"

text \<open>
  \<^verbatim>\<open>eventEmitter.emit(key)\<close> calls every listener registered under the key; each starts a
  call of \<^verbatim>\<open>handler\<close>, which runs up to its \<^verbatim>\<open>await\<close> of \<^verbatim>\<open>fetch\<close>. What the call does
  after the fetch settles is taken as one step: between its later suspensions (reading
  the body, the \<^verbatim>\<open>await\<close> of \<^verbatim>\<open>check\<close>) it reads and writes the table only inside
  \<^verbatim>\<open>checkErrorHandler\<close>, which does not suspend. The effects of the whole call, its first
  two log lines too, are recorded at that step.
\<close>

definition emit :: "string \<Rightarrow> system \<Rightarrow> system" where
  "emit key sys =
     sys\<lparr>in_flight := in_flight sys @ map snd (filter (\<lambda>l. fst l = key) (listeners sys))\<rparr>"

definition checkCallback :: "Site \<Rightarrow> system \<Rightarrow> system" where
  "checkCallback site sys = emit (name site) (does (logger DEBUG (Timeout_reached (name site))) sys)"

text \<open>
  What can happen to the running process: a timer that was set fires, or the fetch of a
  call in flight settles, with the outcome the world gives it. Nothing happens after
  \<^verbatim>\<open>process.exit\<close>.
\<close>

datatype event = Timer_fires int Site | Fetch_settles Site world

definition settle :: "Site \<Rightarrow> world \<Rightarrow> system \<Rightarrow> system" where
  "settle site w sys =
     (case handler site (failedAttempts sys) w of
        (fa', e, a) \<Rightarrow>
          let sys' = does e (sys\<lparr>in_flight := remove1 site (in_flight sys),
                                  failedAttempts := fa'\<rparr>)
          in (case a of
                SetTimeout delay \<Rightarrow> sys'\<lparr>timers := timers sys' @ [(delay, site)]\<rparr>
              | CallNow \<Rightarrow> checkCallback site sys'
              | NoCallback \<Rightarrow> sys'
              | ProcessExit c \<Rightarrow> sys'\<lparr>exited := Some c\<rparr>))"

definition step :: "event \<Rightarrow> system \<Rightarrow> system" where
  "step ev sys =
     (if exited sys \<noteq> None then sys
      else
        (case ev of
           Timer_fires delay site \<Rightarrow>
             if (delay, site) \<in> set (timers sys) then
               checkCallback site (sys\<lparr>timers := remove1 (delay, site) (timers sys)\<rparr>)
             else sys
         | Fetch_settles site w \<Rightarrow>
             if site \<in> set (in_flight sys) then settle site w sys else sys))"

fun run :: "event list \<Rightarrow> system \<Rightarrow> system" where
  "run [] sys = sys"
| "run (ev # evs) sys = run evs (step ev sys)"

subsection \<open>Startup\<close>

text \<open>
  \<^verbatim>\<open>process.env\<close>: a variable is a string, or \<^verbatim>\<open>undefined\<close> when it is not set, and
  \<^verbatim>\<open>== null\<close> holds of it exactly when it is not set. A startup function gives its
  effects and the exit code when it called \<^verbatim>\<open>process.exit\<close>.
\<close>

record environment =
  MAIL_USERNAME :: "string option"
  MAIL_APP_PASSWORD :: "string option"

definition verifyExistenceOfImportantEnvVars :: "environment \<Rightarrow> effects \<times> nat option" where
  "verifyExistenceOfImportantEnvVars env =
     (if MAIL_USERNAME env = None \<or> MAIL_APP_PASSWORD env = None then
        (logger ERROR Env_vars_missing, Some 1)
      else (no_effects, None))"

definition createTransport :: effects where
  "createTransport = and_then (logger INFO Initializing_transport) (logger INFO Transport_initialized)"

text \<open>
  \<^verbatim>\<open>verifyTransport\<close>: the promisified \<^verbatim>\<open>transporter.verify\<close> resolves (\<open>None\<close>) or rejects
  with an error.
\<close>

definition verifyTransport :: "string option \<Rightarrow> effects \<times> nat option" where
  "verifyTransport verified =
     (case verified of
        None \<Rightarrow>
          (and_then (logger INFO Verifying_transport) (logger INFO Transport_authorized), None)
      | Some e \<Rightarrow>
          (and_then (logger INFO Verifying_transport)
             (and_then (logger ERROR Authorization_failed) (logger ERROR (Logged_error e))),
           Some 1))"

text \<open>The body of the loop \<^verbatim>\<open>for (const site of sites)\<close> of \<^verbatim>\<open>main\<close>.\<close>

definition start_site :: "Site \<Rightarrow> system \<Rightarrow> system" where
  "start_site site sys =
     (let sys1 = does (logger INFO (Setting_listener (name site))) sys;
          sys2 = sys1\<lparr>listeners := listeners sys1 @ [(name site, site)]\<rparr>;
          sys3 = sys2\<lparr>failedAttempts := prop_set (failedAttempts sys2) (name site) (Count 0)\<rparr>;
          sys4 = does (logger INFO (Emitting_initial (name site))) sys3
      in emit (name site) sys4)"

fun start_sites :: "Site list \<Rightarrow> system \<Rightarrow> system" where
  "start_sites [] sys = sys"
| "start_sites (site # rest) sys = start_sites rest (start_site site sys)"

text \<open>\<^verbatim>\<open>main\<close>, for an environment, an outcome of the verification and a list of sites.\<close>

definition main :: "environment \<Rightarrow> string option \<Rightarrow> Site list \<Rightarrow> system" where
  "main env verified ss =
     (case verifyExistenceOfImportantEnvVars env of
        (e1, Some c) \<Rightarrow> (does e1 initial)\<lparr>exited := Some c\<rparr>
      | (e1, None) \<Rightarrow>
          (case verifyTransport verified of
             (e3, Some c) \<Rightarrow> (does e3 (does createTransport (does e1 initial)))\<lparr>exited := Some c\<rparr>
           | (e3, None) \<Rightarrow>
               start_sites ss
                 (does (logger DEBUG Iterating_sites)
                    (does e3 (does createTransport (does e1 initial))))))"

section \<open>Notions the properties are stated with\<close>

text \<open>
  The reason a check fails with, if it fails: the fetch rejects, the status code is not
  200, or reading the body rejects. These are the three calls of \<^verbatim>\<open>checkErrorHandler\<close>
  in \<^verbatim>\<open>check\<close>.
\<close>

fun failure :: "fetch_outcome \<Rightarrow> reason option" where
  "failure (FetchRejects e) = Some (Thrown e)"
| "failure (Response code (TextRejects e)) =
     (if code \<noteq> 200 then Some (Status_not_200 code) else Some (Thrown e))"
| "failure (Response code (Text html)) =
     (if code \<noteq> 200 then Some (Status_not_200 code) else None)"

abbreviation returned :: "STATUS \<times> attempts \<times> effects \<Rightarrow> STATUS" where
  "returned r \<equiv> fst r"

abbreviation table_after :: "STATUS \<times> attempts \<times> effects \<Rightarrow> attempts" where
  "table_after r \<equiv> fst (snd r)"

abbreviation effects_of :: "STATUS \<times> attempts \<times> effects \<Rightarrow> effects" where
  "effects_of r \<equiv> snd (snd r)"

text \<open>Successive check cycles of one site, one for each outcome the world gives.\<close>

fun cycles :: "Site \<Rightarrow> attempts \<Rightarrow> world list \<Rightarrow> STATUS list \<times> attempts" where
  "cycles site fa [] = ([], fa)"
| "cycles site fa (w # ws) =
     (case check site fa w of
        (st, fa', e) \<Rightarrow> (case cycles site fa' ws of (sts, fa'') \<Rightarrow> (st # sts, fa'')))"

text \<open>The number of failing outcomes in a sequence of outcomes.\<close>

definition failures :: "world list \<Rightarrow> nat" where
  "failures ws = length (filter (\<lambda>w. failure (fetched w) \<noteq> None) ws)"


text \<open>
  What can still start a check of the sites named \<open>k\<close>: the timers set for such a site
  and its calls of \<^verbatim>\<open>handler\<close> in flight.
\<close>

definition waiting :: "string \<Rightarrow> system \<Rightarrow> nat" where
  "waiting k sys =
     length (filter (\<lambda>t. name (snd t) = k) (timers sys)) +
     length (filter (\<lambda>s. name s = k) (in_flight sys))"



subsection \<open>Concrete outcomes, for the examples\<close>

definition network_error :: world where
  "network_error = \<lparr>fetched = FetchRejects ''TypeError: fetch failed'', mail_accepted = True\<rparr>"

definition page_unavailable :: world where
  "page_unavailable =
     \<lparr>fetched = Response 200 (Text ''<p>This resource is temporarily unavailable.</p>''),
      mail_accepted = True\<rparr>"

definition page_changed :: world where
  "page_changed = \<lparr>fetched = Response 200 (Text ''<p>Pick a time.</p>''), mail_accepted = False\<rparr>"

definition credentials :: environment where
  "credentials = \<lparr>MAIL_USERNAME = Some ''me@example.org'', MAIL_APP_PASSWORD = Some ''secret''\<rparr>"


definition interleaved :: "world list" where
  "interleaved =
     [network_error, page_unavailable, network_error, page_unavailable, page_unavailable,
      network_error]"

section \<open>Auxiliary facts\<close>

subsection \<open>One check cycle\<close>

lemma mailed_simps [simp]:
  "mailed (and_then e f) = mailed e @ mailed f"
  "mailed (logger l m) = []"
  "mailed (sendAlert a b) = [a]"
  "mailed no_effects = []"
  by (simp_all add: and_then_def logger_def sendAlert_def no_effects_def)

lemma logged_simps [simp]:
  "logged (and_then e f) = logged e @ logged f"
  "logged (logger l m) = [(l, m)]"
  "logged (sendAlert a b) = (DEBUG, Sending_message a) # (if b then [(DEBUG, Message_sent a)] else [])"
  "logged no_effects = []"
  by (simp_all add: and_then_def logger_def sendAlert_def no_effects_def)

lemma unhandled_simps [simp]:
  "unhandled_rejections (and_then e f) = unhandled_rejections e @ unhandled_rejections f"
  "unhandled_rejections (logger l m) = []"
  "unhandled_rejections (sendAlert a b) = (if b then [] else [a])"
  "unhandled_rejections no_effects = []"
  by (simp_all add: and_then_def logger_def sendAlert_def no_effects_def)

lemma after_simps [simp]:
  "fst (after e r) = fst r"
  "fst (snd (after e r)) = fst (snd r)"
  "snd (snd (after e r)) = and_then e (snd (snd r))"
  by (simp_all add: after_def split: prod.splits)

lemma prop_get_Some_key: "prop_get fa k = Some c \<Longrightarrow> k \<noteq> ''__proto__''"
  by (auto simp: prop_get_def split: if_splits)

lemma prop_get_set_same: "k \<noteq> ''__proto__'' \<Longrightarrow> prop_get (prop_set fa k v) k = Some v"
  by (simp add: prop_get_def prop_set_def)

lemma prop_get_set_other: "k' \<noteq> k \<Longrightarrow> prop_get (prop_set fa k v) k' = prop_get fa k'"
  by (simp add: prop_get_def prop_set_def)

lemma includes_text_iff: "includes_text html pat \<longleftrightarrow> (\<exists>pre suf. html = pre @ pat @ suf)"
proof (induction html)
  case Nil
  then show ?case by auto
next
  case (Cons c cs)
  show ?case
  proof
    assume "includes_text (c # cs) pat"
    then consider "take (length pat) (c # cs) = pat" | "includes_text cs pat" by auto
    then show "\<exists>pre suf. c # cs = pre @ pat @ suf"
    proof cases
      case 1
      then have "c # cs = [] @ pat @ drop (length pat) (c # cs)"
        by (metis append_Nil append_take_drop_id)
      then show ?thesis by blast
    next
      case 2
      then obtain pre suf where "cs = pre @ pat @ suf" using Cons.IH by blast
      then have "c # cs = (c # pre) @ pat @ suf" by simp
      then show ?thesis by blast
    qed
  next
    assume "\<exists>pre suf. c # cs = pre @ pat @ suf"
    then obtain pre suf where eq: "c # cs = pre @ pat @ suf" by blast
    show "includes_text (c # cs) pat"
    proof (cases pre)
      case Nil
      then have "take (length pat) (c # cs) = pat" using eq by simp
      then show ?thesis by simp
    next
      case (Cons p ps)
      then have "cs = ps @ pat @ suf" using eq by simp
      then have "includes_text cs pat" using Cons.IH by blast
      then show ?thesis by simp
    qed
  qed
qed

lemma check_200_text:
  "fetched w = Response 200 (Text html) \<Longrightarrow>
     check site fa w =
       (if includes_text html (textMatch site) then
          (WAIT, fa,
           and_then (and_then (logger DEBUG (Making_request (url site)))
                              (logger DEBUG (Request_complete (url site))))
             (logger INFO (Found_text_match (name site))))
        else
          (COOLDOWN, fa,
           and_then (and_then (logger DEBUG (Making_request (url site)))
                              (logger DEBUG (Request_complete (url site))))
             (and_then (logger WARN (No_text_match (name site)))
                (sendAlert (Contents_changed (name site) (url site) (textMatch site))
                   (mail_accepted w)))))"
  by (simp add: check_def)

lemma checkErrorHandler_counted:
  assumes "prop_get fa (name site) = Some (Count n)"
  shows "fst (snd (checkErrorHandler site e msg fa acc)) = prop_set fa (name site) (Count (n + 1))"
    and "fst (checkErrorHandler site e msg fa acc) = (if n \<ge> 3 then GAVE_UP else COOLDOWN)"
    and "mailed (snd (snd (checkErrorHandler site e msg fa acc))) =
           (if n = 0 then [Failed_once (name site) (url site) e (msgCooldown site)]
            else if n \<ge> 3 then [Giving_up (name site) ATTEMPTS_BEFORE_GIVING_UP (url site) e]
            else [])"
  using assms prop_get_Some_key [OF assms]
  by (auto simp: checkErrorHandler_def Let_def prop_get_set_same ATTEMPTS_BEFORE_GIVING_UP_def)

lemma checkErrorHandler_table:
  "fst (snd (checkErrorHandler s e msg fa acc)) = prop_set fa (name s) (incremented (prop_get fa (name s)))"
  by (simp add: checkErrorHandler_def Let_def)

lemma check_failure:
  assumes "failure (fetched w) = Some r"
  shows "\<exists>msg pre. check site fa w = after pre (checkErrorHandler site r msg fa (mail_accepted w))
            \<and> mailed pre = [] \<and> unhandled_rejections pre = []"
proof (cases "fetched w")
  case (FetchRejects e)
  with assms show ?thesis by (auto simp: check_def intro!: exI)
next
  case (Response code body)
  with assms show ?thesis
    by (cases body) (auto simp: check_def Let_def split: if_splits intro!: exI)
qed

lemma check_table:
  "table_after (check s fa w) =
     (if failure (fetched w) = None then fa
      else prop_set fa (name s) (incremented (prop_get fa (name s))))"
proof (cases "failure (fetched w)")
  case None
  then obtain html where "fetched w = Response 200 (Text html)"
    by (cases "fetched w" rule: failure.cases) (auto split: if_splits)
  then show ?thesis using None by (simp add: check_200_text)
next
  case (Some r)
  then obtain msg pre where "check s fa w = after pre (checkErrorHandler s r msg fa (mail_accepted w))"
    using check_failure by blast
  then show ?thesis using Some by (simp add: checkErrorHandler_table)
qed

lemma check_counter:
  assumes "prop_get fa (name s) = Some (Count n)"
  shows "prop_get (table_after (check s fa w)) (name s) =
           Some (Count (n + (if failure (fetched w) = None then 0 else 1)))"
  using assms prop_get_Some_key [OF assms] by (simp add: check_table prop_get_set_same)

lemma check_other_key:
  "k \<noteq> name s \<Longrightarrow> prop_get (table_after (check s fa w)) k = prop_get fa k"
  by (simp add: check_table prop_get_set_other)

lemma check_status:
  assumes "prop_get fa (name s) = Some (Count n)"
  shows "returned (check s fa w) = GAVE_UP \<longleftrightarrow> failure (fetched w) \<noteq> None \<and> 3 \<le> n"
proof (cases "failure (fetched w)")
  case None
  then obtain html where "fetched w = Response 200 (Text html)"
    by (cases "fetched w" rule: failure.cases) (auto split: if_splits)
  then show ?thesis using None by (simp add: check_200_text)
next
  case (Some r)
  then obtain msg pre where "check s fa w = after pre (checkErrorHandler s r msg fa (mail_accepted w))"
    using check_failure by blast
  then show ?thesis using Some by (simp add: checkErrorHandler_counted [OF assms])
qed

lemma check_returns: "returned (check site fa w) \<in> {COOLDOWN, WAIT, GAVE_UP}"
  by (auto simp: check_def checkErrorHandler_def Let_def
      split: fetch_outcome.splits body_outcome.splits)

lemma handler_action: "snd (snd (handler site fa w)) = snd (handler_switch site (STATUS_value (fst (check site fa w))))"
  by (simp add: handler_def split: prod.splits)

lemma handler_table: "fst (handler site fa w) = fst (snd (check site fa w))"
  by (simp add: handler_def split: prod.splits)

lemma switch_simps:
  "snd (handler_switch site 0) = SetTimeout (msgCooldown site)"
  "snd (handler_switch site (Suc 0)) = SetTimeout (interval site)"
  "snd (handler_switch site 2) = CallNow"
  "snd (handler_switch site 3) = NoCallback"
  by (simp_all add: handler_switch_def)

lemma handler_never_exits:
  "snd (snd (handler site fa w)) \<in> {SetTimeout (msgCooldown site), SetTimeout (interval site), NoCallback}"
  using check_returns [of site fa w] by (auto simp: handler_action switch_simps)






subsection \<open>Listeners, timers and calls in flight\<close>





lemma emit_fields [simp]:
  "listeners (emit k sys) = listeners sys"
  "timers (emit k sys) = timers sys"
  "trace (emit k sys) = trace sys"
  "exited (emit k sys) = exited sys"
  "failedAttempts (emit k sys) = failedAttempts sys"
  by (simp_all add: emit_def)

lemma does_fields [simp]:
  "listeners (does e sys) = listeners sys"
  "timers (does e sys) = timers sys"
  "in_flight (does e sys) = in_flight sys"
  "trace (does e sys) = and_then (trace sys) e"
  "exited (does e sys) = exited sys"
  "failedAttempts (does e sys) = failedAttempts sys"
  by (simp_all add: does_def)

lemma waiting_does [simp]: "waiting k (does e sys) = waiting k sys"
  by (simp add: waiting_def)


lemma checkCallback_fields [simp]:
  "listeners (checkCallback s sys) = listeners sys"
  "timers (checkCallback s sys) = timers sys"
  "exited (checkCallback s sys) = exited sys"
  "failedAttempts (checkCallback s sys) = failedAttempts sys"
  "trace (checkCallback s sys) = and_then (trace sys) (logger DEBUG (Timeout_reached (name s)))"
  by (simp_all add: checkCallback_def)


lemma settle_cases:
  obtains (timer) d where "snd (snd (handler s (failedAttempts sys) w)) = SetTimeout d"
      "settle s w sys =
         (does (fst (snd (handler s (failedAttempts sys) w)))
            (sys\<lparr>in_flight := remove1 s (in_flight sys),
                 failedAttempts := fst (handler s (failedAttempts sys) w)\<rparr>))
         \<lparr>timers := timers sys @ [(d, s)]\<rparr>"
  | (nothing) "snd (snd (handler s (failedAttempts sys) w)) = NoCallback"
      "settle s w sys =
         does (fst (snd (handler s (failedAttempts sys) w)))
            (sys\<lparr>in_flight := remove1 s (in_flight sys),
                 failedAttempts := fst (handler s (failedAttempts sys) w)\<rparr>)"
proof -
  have unfold: "settle s w sys =
     (case snd (snd (handler s (failedAttempts sys) w)) of
        SetTimeout d \<Rightarrow>
          (does (fst (snd (handler s (failedAttempts sys) w)))
            (sys\<lparr>in_flight := remove1 s (in_flight sys),
                 failedAttempts := fst (handler s (failedAttempts sys) w)\<rparr>))
          \<lparr>timers := timers sys @ [(d, s)]\<rparr>
      | CallNow \<Rightarrow>
          checkCallback s
            (does (fst (snd (handler s (failedAttempts sys) w)))
              (sys\<lparr>in_flight := remove1 s (in_flight sys),
                   failedAttempts := fst (handler s (failedAttempts sys) w)\<rparr>))
      | NoCallback \<Rightarrow>
          does (fst (snd (handler s (failedAttempts sys) w)))
            (sys\<lparr>in_flight := remove1 s (in_flight sys),
                 failedAttempts := fst (handler s (failedAttempts sys) w)\<rparr>)
      | ProcessExit c \<Rightarrow>
          (does (fst (snd (handler s (failedAttempts sys) w)))
            (sys\<lparr>in_flight := remove1 s (in_flight sys),
                 failedAttempts := fst (handler s (failedAttempts sys) w)\<rparr>))
          \<lparr>exited := Some c\<rparr>)"
    by (cases "handler s (failedAttempts sys) w") (simp add: settle_def Let_def split: action.splits)
  show thesis
  proof (cases "snd (snd (handler s (failedAttempts sys) w))")
    case (SetTimeout d)
    show ?thesis by (rule timer [OF SetTimeout]) (simp add: unfold SetTimeout)
  next
    case CallNow
    then show ?thesis using handler_never_exits [of s "failedAttempts sys" w] by simp
  next
    case NoCallback
    have "settle s w sys =
         does (fst (snd (handler s (failedAttempts sys) w)))
            (sys\<lparr>in_flight := remove1 s (in_flight sys),
                 failedAttempts := fst (handler s (failedAttempts sys) w)\<rparr>)"
      unfolding unfold NoCallback by simp
    with NoCallback show ?thesis by (rule nothing)
  next
    case (ProcessExit c)
    then show ?thesis using handler_never_exits [of s "failedAttempts sys" w] by simp
  qed
qed

lemma settle_listeners [simp]: "listeners (settle s w sys) = listeners sys"
  by (rule settle_cases [of s sys w]) simp_all


lemma settle_table:
  "failedAttempts (settle s w sys) = table_after (check s (failedAttempts sys) w)"
  by (rule settle_cases [of s sys w]) (simp_all add: handler_table)

lemma settle_timers:
  "timers (settle site w sys) =
     (case snd (snd (handler site (failedAttempts sys) w)) of
        SetTimeout d \<Rightarrow> timers sys @ [(d, site)] | _ \<Rightarrow> timers sys)"
  by (simp add: settle_def does_def checkCallback_def emit_def Let_def split: prod.splits action.splits)

lemma settle_exited: "exited (settle site w sys) = exited sys"
  using handler_never_exits [of site "failedAttempts sys" w]
  by (auto simp: settle_def does_def Let_def split: prod.splits action.splits)


lemma step_listeners [simp]: "listeners (step ev sys) = listeners sys"
  by (cases ev) (simp_all add: step_def)

lemma run_listeners [simp]: "listeners (run evs sys) = listeners sys"
  by (induction evs arbitrary: sys) simp_all

lemma step_exited [simp]: "exited (step ev sys) = exited sys"
  by (cases ev) (simp_all add: step_def settle_exited)

lemma run_exited [simp]: "exited (run evs sys) = exited sys"
  by (induction evs arbitrary: sys) simp_all

lemma run_after_exit: "exited sys \<noteq> None \<Longrightarrow> run evs sys = sys"
  by (induction evs) (simp_all add: step_def)




subsection \<open>The invariant of the scheduler\<close>








lemma waiting_initial [simp]: "waiting k initial = 0"
  by (simp add: waiting_def initial_def)

lemma listeners_initial [simp]: "listeners initial = []"
  by (simp add: initial_def)




lemma start_site_fields:
  "listeners (start_site s sys) = listeners sys @ [(name s, s)]"
  "timers (start_site s sys) = timers sys"
  "exited (start_site s sys) = exited sys"
  "in_flight (start_site s sys) =
     in_flight sys @ map snd (filter (\<lambda>l. fst l = name s) (listeners sys @ [(name s, s)]))"
  "failedAttempts (start_site s sys) = prop_set (failedAttempts sys) (name s) (Count 0)"
  by (simp_all add: start_site_def Let_def emit_def does_def)







subsection \<open>The counter along a run\<close>

lemma step_counter:
  assumes "prop_get (failedAttempts sys) k = Some (Count n)"
  shows "\<exists>m\<ge>n. prop_get (failedAttempts (step ev sys)) k = Some (Count m)"
proof (cases ev)
  case (Timer_fires d s)
  then show ?thesis using assms by (auto simp: step_def)
next
  case (Fetch_settles s w)
  show ?thesis
  proof (cases "exited sys = None \<and> s \<in> set (in_flight sys)")
    case False
    then show ?thesis using assms Fetch_settles by (auto simp: step_def)
  next
    case True
    then have st: "failedAttempts (step ev sys) = table_after (check s (failedAttempts sys) w)"
      using Fetch_settles by (simp add: step_def settle_table)
    show ?thesis
    proof (cases "k = name s")
      case same: True
      show ?thesis unfolding st using check_counter [of "failedAttempts sys" s n w] assms same
        by auto
    next
      case other: False
      show ?thesis unfolding st using check_other_key [OF other] assms by simp
    qed
  qed
qed

lemma run_counter:
  "prop_get (failedAttempts sys) k = Some (Count n) \<Longrightarrow>
     \<exists>m\<ge>n. prop_get (failedAttempts (run evs sys)) k = Some (Count m)"
proof (induction evs arbitrary: sys n)
  case Nil
  then show ?case by simp
next
  case (Cons ev evs)
  obtain m where m: "n \<le> m" "prop_get (failedAttempts (step ev sys)) k = Some (Count m)"
    using step_counter [OF Cons.prems] by blast
  obtain m' where "m \<le> m'" "prop_get (failedAttempts (run evs (step ev sys))) k = Some (Count m')"
    using Cons.IH [OF m(2)] by blast
  then show ?case using m(1) by (auto intro: exI [of _ m'])
qed

lemma cycles_counter:
  "prop_get fa (name s) = Some (Count n) \<Longrightarrow>
     prop_get (snd (cycles s fa ws)) (name s) = Some (Count (n + failures ws))"
proof (induction ws arbitrary: fa n)
  case Nil
  then show ?case by (simp add: failures_def)
next
  case (Cons w ws)
  have "prop_get (snd (cycles s (table_after (check s fa w)) ws)) (name s) =
          Some (Count (n + (if failure (fetched w) = None then 0 else 1) + failures ws))"
    by (rule Cons.IH [OF check_counter [OF Cons.prems]])
  then show ?case by (auto simp: failures_def split: prod.splits)
qed

lemma cycles_statuses:
  "prop_get fa (name s) = Some (Count n) \<Longrightarrow> n + failures ws \<le> 3 \<Longrightarrow>
     GAVE_UP \<notin> set (fst (cycles s fa ws))"
proof (induction ws arbitrary: fa n)
  case Nil
  then show ?case by simp
next
  case (Cons w ws)
  let ?i = "if failure (fetched w) = None then 0 else 1 :: nat"
  have f: "failures (w # ws) = ?i + failures ws" by (simp add: failures_def)
  have c: "prop_get (table_after (check s fa w)) (name s) = Some (Count (n + ?i))"
    by (rule check_counter [OF Cons.prems(1)])
  have "n + ?i + failures ws \<le> 3" using Cons.prems(2) f by simp
  then have rest: "GAVE_UP \<notin> set (fst (cycles s (table_after (check s fa w)) ws))"
    by (rule Cons.IH [OF c])
  have "returned (check s fa w) \<noteq> GAVE_UP"
    using check_status [OF Cons.prems(1), of w] Cons.prems(2) f by auto
  then show ?case using rest by (auto split: prod.splits)
qed

text \<open>
  \<^verbatim>\<open>main\<close> writes 0 under the name of every site before its first check, so the counter
  of a configured site holds a number from then on; only under the name \<^verbatim>\<open>__proto__\<close>
  does the write leave nothing behind.
\<close>

lemma start_sites_table:
  "prop_get (failedAttempts (start_sites ss sys)) k =
     (if k \<in> name ` set ss \<and> k \<noteq> ''__proto__'' then Some (Count 0)
      else prop_get (failedAttempts sys) k)"
proof (induction ss arbitrary: sys)
  case Nil
  then show ?case by simp
next
  case (Cons s ss)
  have "prop_get (failedAttempts (start_site s sys)) k =
          (if k = name s \<and> k \<noteq> ''__proto__'' then Some (Count 0)
           else prop_get (failedAttempts sys) k)"
    by (simp add: start_site_fields prop_get_def prop_set_def)
  then show ?case by (auto simp: Cons.IH)
qed

lemma configured_counter_holds_number:
  assumes "MAIL_USERNAME env \<noteq> None" and "MAIL_APP_PASSWORD env \<noteq> None"
      and "s \<in> set ss" and "name s \<noteq> ''__proto__''"
  shows "\<exists>n. prop_get (failedAttempts (run evs (main env None ss))) (name s) = Some (Count n)"
proof -
  have "prop_get (failedAttempts (main env None ss)) (name s) = Some (Count 0)"
    using assms
    by (auto simp: main_def verifyExistenceOfImportantEnvVars_def verifyTransport_def
        start_sites_table)
  then show ?thesis using run_counter by blast
qed

subsection \<open>The examples, evaluated\<close>

lemma LibTheatreRoom_fields:
  "name LibTheatreRoom = ''LibTheatreRoom''"
  "url LibTheatreRoom = ''https://byu.libcal.com/reserve/mediaviewroomss''"
  "textMatch LibTheatreRoom = ''This resource is temporarily unavailable.''"
  "interval LibTheatreRoom = 300000"
  "msgCooldown LibTheatreRoom = 14400000"
  by (simp_all add: LibTheatreRoom_def MINUTES_def HOURS_def)

lemma worlds:
  "fetched network_error = FetchRejects ''TypeError: fetch failed''"
  "mail_accepted network_error = True"
  "fetched page_unavailable = Response 200 (Text ''<p>This resource is temporarily unavailable.</p>'')"
  "mail_accepted page_unavailable = True"
  "fetched page_changed = Response 200 (Text ''<p>Pick a time.</p>'')"
  "mail_accepted page_changed = False"
  by (simp_all add: network_error_def page_unavailable_def page_changed_def)

lemma main_started:
  "main credentials None sites =
     \<lparr>failedAttempts = Map.empty(''LibTheatreRoom'' \<mapsto> Count 0),
      listeners = [(''LibTheatreRoom'', LibTheatreRoom)],
      timers = [],
      in_flight = [LibTheatreRoom],
      trace = \<lparr>logged = [(INFO, Initializing_transport), (INFO, Transport_initialized),
                         (INFO, Verifying_transport), (INFO, Transport_authorized),
                         (DEBUG, Iterating_sites), (INFO, Setting_listener ''LibTheatreRoom''),
                         (INFO, Emitting_initial ''LibTheatreRoom'')],
               mailed = [], unhandled_rejections = []\<rparr>,
      exited = None\<rparr>"
  by (simp add: main_def credentials_def sites_def verifyExistenceOfImportantEnvVars_def
      verifyTransport_def createTransport_def start_site_def does_def emit_def initial_def
      and_then_def logger_def no_effects_def prop_set_def Let_def LibTheatreRoom_fields)

lemma main_started_timers: "timers (main credentials None sites) = []"
  by (simp add: main_started)


section \<open>The properties\<close>

text \<open>
  C1. The claim: after every check whose fetch succeeds with status 200 and a readable
  body, the failure counter of the site is exactly 0, whether the body matched or not.
  The program has no statement that resets \<^verbatim>\<open>failedAttempts[site.name]\<close>: the two
  branches of \<^verbatim>\<open>check\<close> after a readable body do not touch the table. What holds is that
  such a check leaves the whole table, and so the counter of the site, as it was: the
  counter is 0 afterwards only when it was 0 before.
\<close>

theorem successful_check_keeps_counter:
  "fetched w = Response 200 (Text html) \<Longrightarrow> table_after (check site fa w) = fa"
  by (simp add: check_200_text)

theorem successful_check_keeps_counter_witness:
  "table_after (check LibTheatreRoom (Map.empty(''LibTheatreRoom'' \<mapsto> Count 2)) page_unavailable)
     = Map.empty(''LibTheatreRoom'' \<mapsto> Count 2)"
  using successful_check_keeps_counter
    [of page_unavailable "''<p>This resource is temporarily unavailable.</p>''"
      LibTheatreRoom "Map.empty(''LibTheatreRoom'' \<mapsto> Count 2)"]
  by (simp add: page_unavailable_def)

text \<open>
  The claim fails from the state \<^verbatim>\<open>main\<close> sets up: one check that fails on a network
  error, then a check that fetches the page with status 200 and finds the text. The
  counter is 1 after the second check, not 0.
\<close>

theorem successful_check_does_not_reset_counter:
  "fetched page_unavailable =
     Response 200 (Text ''<p>This resource is temporarily unavailable.</p>'') \<and>
   includes_text ''<p>This resource is temporarily unavailable.</p>'' (textMatch LibTheatreRoom) \<and>
   prop_get
     (table_after
        (check LibTheatreRoom
           (table_after
              (check LibTheatreRoom (failedAttempts (main credentials None sites)) network_error))
           page_unavailable))
     (name LibTheatreRoom) = Some (Count 1)"
  by (simp add: page_unavailable_def network_error_def LibTheatreRoom_def sites_def main_def
      credentials_def verifyExistenceOfImportantEnvVars_def verifyTransport_def start_site_def
      does_def emit_def initial_def check_def checkErrorHandler_def prop_get_def prop_set_def
      Let_def)

text \<open>
  C2. With \<open>ATTEMPTS_BEFORE_GIVING_UP = 3\<close>, a check that fails (the fetch rejects, the
  status is not 200, or reading the body rejects) on a site whose counter holds the number
  \<open>n\<close> leaves the counter at \<open>n + 1\<close>. When that is 1 it hands exactly one "failed (once)"
  alert to the transport and returns \<open>COOLDOWN\<close>; when it is 2 or 3 it sends nothing and
  returns \<open>COOLDOWN\<close>; when it is above 3 it hands over exactly one "giving up" alert and
  returns \<open>GAVE_UP\<close>. The counter of a configured site holds a number in every state of
  the process (\<open>configured_counter_holds_number\<close>).
\<close>

theorem failing_check_escalation:
  assumes "prop_get fa (name site) = Some (Count n)"
      and "failure (fetched w) = Some r"
  shows "ATTEMPTS_BEFORE_GIVING_UP = 3 \<and>
         prop_get (table_after (check site fa w)) (name site) = Some (Count (n + 1)) \<and>
         (n + 1 = 1 \<longrightarrow>
            returned (check site fa w) = COOLDOWN \<and>
            mailed (effects_of (check site fa w)) =
              [Failed_once (name site) (url site) r (msgCooldown site)]) \<and>
         (n + 1 = 2 \<or> n + 1 = 3 \<longrightarrow>
            returned (check site fa w) = COOLDOWN \<and> mailed (effects_of (check site fa w)) = []) \<and>
         (n + 1 > ATTEMPTS_BEFORE_GIVING_UP \<longrightarrow>
            returned (check site fa w) = GAVE_UP \<and>
            mailed (effects_of (check site fa w)) =
              [Giving_up (name site) ATTEMPTS_BEFORE_GIVING_UP (url site) r])"
proof -
  obtain msg pre
    where c: "check site fa w = after pre (checkErrorHandler site r msg fa (mail_accepted w))"
      and pre: "mailed pre = []"
    using check_failure [OF assms(2)] by blast
  have key: "name site \<noteq> ''__proto__''" using assms(1) by (rule prop_get_Some_key)
  show ?thesis
    unfolding c
    using pre key
    by (simp add: checkErrorHandler_counted [OF assms(1)] prop_get_set_same
        ATTEMPTS_BEFORE_GIVING_UP_def)
qed

theorem failing_check_escalation_witness:
  "returned (check LibTheatreRoom (Map.empty(''LibTheatreRoom'' \<mapsto> Count 3)) network_error) = GAVE_UP \<and>
   mailed (effects_of (check LibTheatreRoom (Map.empty(''LibTheatreRoom'' \<mapsto> Count 3)) network_error)) =
     [Giving_up ''LibTheatreRoom'' 3 ''https://byu.libcal.com/reserve/mediaviewroomss''
        (Thrown ''TypeError: fetch failed'')] \<and>
   prop_get (table_after (check LibTheatreRoom (Map.empty(''LibTheatreRoom'' \<mapsto> Count 3)) network_error))
     ''LibTheatreRoom'' = Some (Count 4)"
  using failing_check_escalation
    [of "Map.empty(''LibTheatreRoom'' \<mapsto> Count 3)" LibTheatreRoom 3 network_error
      "Thrown ''TypeError: fetch failed''"]
  by (simp add: prop_get_def LibTheatreRoom_fields worlds ATTEMPTS_BEFORE_GIVING_UP_def)




text \<open>
  C4. A check whose fetch returns status 200 and a readable body in which
  \<^verbatim>\<open>site.textMatch\<close> occurs as a literal substring returns \<open>WAIT\<close> and hands no mail to
  the transport; \<^verbatim>\<open>handler\<close> then calls \<^verbatim>\<open>setTimeout\<close> with the delay \<^verbatim>\<open>site.interval\<close>,
  which adds exactly that one timer for the site.
\<close>

theorem match_waits_for_interval:
  assumes "fetched w = Response 200 (Text html)"
      and "html = pre @ textMatch site @ suf"
  shows "returned (check site fa w) = WAIT \<and>
         mailed (effects_of (check site fa w)) = [] \<and>
         snd (snd (handler site fa w)) = SetTimeout (interval site) \<and>
         timers (settle site w sys) = timers sys @ [(interval site, site)]"
proof -
  have "includes_text html (textMatch site)" using assms(2) includes_text_iff by blast
  then have c: "returned (check site fa w) = WAIT" "mailed (effects_of (check site fa w)) = []" for fa
    by (simp_all add: check_200_text [OF assms(1)])
  then show ?thesis by (simp add: handler_action switch_simps settle_timers)
qed

theorem match_waits_for_interval_witness:
  "returned (check LibTheatreRoom Map.empty page_unavailable) = WAIT \<and>
   mailed (effects_of (check LibTheatreRoom Map.empty page_unavailable)) = [] \<and>
   snd (snd (handler LibTheatreRoom Map.empty page_unavailable)) = SetTimeout 300000 \<and>
   timers (settle LibTheatreRoom page_unavailable (main credentials None sites)) =
     [(300000, LibTheatreRoom)]"
proof -
  have h: "''<p>This resource is temporarily unavailable.</p>'' =
             ''<p>'' @ textMatch LibTheatreRoom @ ''</p>''"
    by (simp add: LibTheatreRoom_fields)
  show ?thesis
    using match_waits_for_interval [OF worlds(3) h, of Map.empty "main credentials None sites"]
    by (simp only: LibTheatreRoom_fields main_started_timers append_Nil simp_thms)
qed

text \<open>
  C5. A check whose fetch returns status 200 and a readable body in which
  \<^verbatim>\<open>site.textMatch\<close> does not occur returns \<open>COOLDOWN\<close> and hands exactly one mail to the
  transport, the "contents changed" alert; \<^verbatim>\<open>handler\<close> then calls \<^verbatim>\<open>setTimeout\<close> with the
  delay \<^verbatim>\<open>site.msgCooldown\<close>, which adds exactly that one timer for the site.
\<close>

theorem mismatch_alerts_and_cools_down:
  assumes "fetched w = Response 200 (Text html)"
      and "\<nexists>pre suf. html = pre @ textMatch site @ suf"
  shows "returned (check site fa w) = COOLDOWN \<and>
         mailed (effects_of (check site fa w)) =
           [Contents_changed (name site) (url site) (textMatch site)] \<and>
         snd (snd (handler site fa w)) = SetTimeout (msgCooldown site) \<and>
         timers (settle site w sys) = timers sys @ [(msgCooldown site, site)]"
proof -
  have "\<not> includes_text html (textMatch site)" using assms(2) includes_text_iff by blast
  then have c: "returned (check site fa w) = COOLDOWN"
     "mailed (effects_of (check site fa w)) =
        [Contents_changed (name site) (url site) (textMatch site)]" for fa
    by (simp_all add: check_200_text [OF assms(1)])
  then show ?thesis by (simp add: handler_action switch_simps settle_timers)
qed

theorem mismatch_alerts_and_cools_down_witness:
  "returned (check LibTheatreRoom Map.empty page_changed) = COOLDOWN \<and>
   mailed (effects_of (check LibTheatreRoom Map.empty page_changed)) =
     [Contents_changed ''LibTheatreRoom'' ''https://byu.libcal.com/reserve/mediaviewroomss''
        ''This resource is temporarily unavailable.''] \<and>
   snd (snd (handler LibTheatreRoom Map.empty page_changed)) = SetTimeout 14400000 \<and>
   timers (settle LibTheatreRoom page_changed (main credentials None sites)) =
     [(14400000, LibTheatreRoom)]"
proof -
  have "\<not> includes_text ''<p>Pick a time.</p>'' (textMatch LibTheatreRoom)"
    by (simp add: LibTheatreRoom_fields)
  then have h: "\<nexists>pre suf. ''<p>Pick a time.</p>'' = pre @ textMatch LibTheatreRoom @ suf"
    by (simp only: includes_text_iff not_False_eq_True)
  show ?thesis
    using mismatch_alerts_and_cools_down [OF worlds(5) h, of Map.empty "main credentials None sites"]
    by (simp only: LibTheatreRoom_fields main_started_timers append_Nil simp_thms)
qed



text \<open>
  C7. On a number that is not the value of a member of \<open>STATUS\<close> the \<^verbatim>\<open>switch\<close> of
  \<^verbatim>\<open>handler\<close> logs an error and calls \<^verbatim>\<open>process.exit(1)\<close>. That branch is not reached
  from \<^verbatim>\<open>check\<close>: a check returns \<open>COOLDOWN\<close>, \<open>WAIT\<close> or \<open>GAVE_UP\<close>, never \<open>READY\<close>, so
  \<^verbatim>\<open>handler\<close> sets a timer for the cooldown or the interval or sets no callback, and the
  exit code of the process is what it was.
\<close>

theorem default_branch_exits_and_is_unreachable:
  "((\<forall>s. st \<noteq> STATUS_value s) \<longrightarrow>
      handler_switch site st = (logger ERROR (Default_case (name site) st), ProcessExit 1)) \<and>
   returned (check site fa w) \<in> {COOLDOWN, WAIT, GAVE_UP} \<and>
   snd (snd (handler site fa w)) \<in>
     {SetTimeout (msgCooldown site), SetTimeout (interval site), NoCallback} \<and>
   exited (settle site w sys) = exited sys"
proof -
  have "handler_switch site st = (logger ERROR (Default_case (name site) st), ProcessExit 1)"
    if "\<forall>s. st \<noteq> STATUS_value s"
  proof -
    have "st \<noteq> STATUS_value COOLDOWN" "st \<noteq> STATUS_value WAIT"
      "st \<noteq> STATUS_value READY" "st \<noteq> STATUS_value GAVE_UP"
      using that by blast+
    then show ?thesis unfolding handler_switch_def by presburger
  qed
  then show ?thesis
    using check_returns handler_never_exits settle_exited by blast
qed

theorem default_branch_exits_and_is_unreachable_witness:
  "handler_switch LibTheatreRoom 4 =
     (logger ERROR (Default_case ''LibTheatreRoom'' 4), ProcessExit 1) \<and>
   returned (check LibTheatreRoom Map.empty network_error) \<in> {COOLDOWN, WAIT, GAVE_UP} \<and>
   exited (settle LibTheatreRoom network_error (main credentials None sites)) = None"
proof -
  have h: "\<forall>s. (4::nat) \<noteq> STATUS_value s"
  proof
    fix s show "(4::nat) \<noteq> STATUS_value s" by (cases s) simp_all
  qed
  have e: "exited (main credentials None sites) = None"
    by (simp add: main_started)
  show ?thesis
    using default_branch_exits_and_is_unreachable
      [of 4 LibTheatreRoom Map.empty network_error "main credentials None sites"] h
    by (simp only: LibTheatreRoom_fields e simp_thms)
qed

text \<open>
  C8. When \<open>MAIL_USERNAME\<close> or \<open>MAIL_APP_PASSWORD\<close> is absent from the environment, or the
  awaited verification of the transport fails, \<^verbatim>\<open>main\<close> ends in \<^verbatim>\<open>process.exit(1)\<close> with no
  listener registered, no call of \<^verbatim>\<open>handler\<close> started, no timer set and no mail sent,
  and nothing happens to the process afterwards.
\<close>

theorem startup_aborts:
  assumes "MAIL_USERNAME env = None \<or> MAIL_APP_PASSWORD env = None \<or> verified \<noteq> None"
  shows "exited (main env verified ss) = Some 1 \<and>
         listeners (main env verified ss) = [] \<and>
         in_flight (main env verified ss) = [] \<and>
         timers (main env verified ss) = [] \<and>
         mailed (trace (main env verified ss)) = [] \<and>
         run evs (main env verified ss) = main env verified ss"
proof -
  have m: "exited (main env verified ss) = Some 1 \<and>
         listeners (main env verified ss) = [] \<and>
         in_flight (main env verified ss) = [] \<and>
         timers (main env verified ss) = [] \<and>
         mailed (trace (main env verified ss)) = []"
    using assms
    by (auto simp: main_def verifyExistenceOfImportantEnvVars_def verifyTransport_def
        initial_def createTransport_def)
  then have "run evs (main env verified ss) = main env verified ss"
    by (intro run_after_exit) simp
  with m show ?thesis by simp
qed

theorem startup_aborts_witness:
  "exited (main \<lparr>MAIL_USERNAME = Some ''me@example.org'', MAIL_APP_PASSWORD = None\<rparr> None sites) = Some 1 \<and>
   in_flight (main \<lparr>MAIL_USERNAME = Some ''me@example.org'', MAIL_APP_PASSWORD = None\<rparr> None sites) = [] \<and>
   exited (main credentials (Some ''Error: Invalid login'') sites) = Some 1 \<and>
   in_flight (main credentials (Some ''Error: Invalid login'') sites) = [] \<and>
   run [Fetch_settles LibTheatreRoom page_unavailable] (main credentials (Some ''Error: Invalid login'') sites) =
     main credentials (Some ''Error: Invalid login'') sites"
  using startup_aborts
      [of "\<lparr>MAIL_USERNAME = Some ''me@example.org'', MAIL_APP_PASSWORD = None\<rparr>" None sites "[]"]
    startup_aborts
      [of credentials "Some ''Error: Invalid login''" sites "[Fetch_settles LibTheatreRoom page_unavailable]"]
  by simp

text \<open>
  C9. Two checks of the same site, each on a table in which the counter of the site is 0,
  that meet the same outcome of the fetch return the same status and hand the same mails
  to the transport, whatever else the two tables hold and whether or not the transport
  accepts the mail in either run.
\<close>

theorem check_deterministic_on_fresh_counter:
  assumes "prop_get fa1 (name site) = Some (Count 0)"
      and "prop_get fa2 (name site) = Some (Count 0)"
      and "fetched w1 = fetched w2"
  shows "returned (check site fa1 w1) = returned (check site fa2 w2) \<and>
         mailed (effects_of (check site fa1 w1)) = mailed (effects_of (check site fa2 w2))"
proof (cases "failure (fetched w1)")
  case None
  then obtain html where "fetched w1 = Response 200 (Text html)"
    by (cases "fetched w1" rule: failure.cases) (auto split: if_splits)
  then show ?thesis using assms(3) by (simp add: check_200_text)
next
  case (Some r)
  then have r2: "failure (fetched w2) = Some r" using assms(3) by simp
  obtain msg1 pre1
    where c1: "check site fa1 w1 = after pre1 (checkErrorHandler site r msg1 fa1 (mail_accepted w1))"
      and p1: "mailed pre1 = []"
    using check_failure [OF Some] by blast
  obtain msg2 pre2
    where c2: "check site fa2 w2 = after pre2 (checkErrorHandler site r msg2 fa2 (mail_accepted w2))"
      and p2: "mailed pre2 = []"
    using check_failure [OF r2] by blast
  show ?thesis unfolding c1 c2 using p1 p2
    by (simp add: checkErrorHandler_counted [OF assms(1)] checkErrorHandler_counted [OF assms(2)])
qed

theorem check_deterministic_on_fresh_counter_witness:
  "returned (check LibTheatreRoom (Map.empty(''LibTheatreRoom'' \<mapsto> Count 0)) network_error) =
     returned (check LibTheatreRoom (Map.empty(''LibTheatreRoom'' \<mapsto> Count 0, ''Other'' \<mapsto> Count 2))
        (network_error\<lparr>mail_accepted := False\<rparr>)) \<and>
   mailed (effects_of (check LibTheatreRoom (Map.empty(''LibTheatreRoom'' \<mapsto> Count 0)) network_error)) =
     mailed (effects_of (check LibTheatreRoom (Map.empty(''LibTheatreRoom'' \<mapsto> Count 0, ''Other'' \<mapsto> Count 2))
        (network_error\<lparr>mail_accepted := False\<rparr>)))"
  using check_deterministic_on_fresh_counter
    [of "Map.empty(''LibTheatreRoom'' \<mapsto> Count 0)" LibTheatreRoom
      "Map.empty(''LibTheatreRoom'' \<mapsto> Count 0, ''Other'' \<mapsto> Count 2)"
      network_error "network_error\<lparr>mail_accepted := False\<rparr>"]
  by (simp add: prop_get_def LibTheatreRoom_fields)

text \<open>
  C10. A counter that holds a number never decreases, whatever happens to the process.
  Over successive check cycles of a site it grows by the number of cycles that failed,
  the successful ones in between leaving it alone: once three cycles have failed since
  the counter was 0, with any number of successful cycles among them, none of these cycles
  has given up, and the next cycle that fails returns \<open>GAVE_UP\<close>.
\<close>

theorem counter_never_decreases:
  assumes "prop_get (failedAttempts sys) (name site) = Some (Count n)"
  shows "(\<exists>m\<ge>n. prop_get (failedAttempts (run evs sys)) (name site) = Some (Count m)) \<and>
         prop_get (snd (cycles site (failedAttempts sys) ws)) (name site) =
           Some (Count (n + failures ws)) \<and>
         (n + failures ws = 3 \<longrightarrow>
            GAVE_UP \<notin> set (fst (cycles site (failedAttempts sys) ws)) \<and>
            (failure (fetched w) \<noteq> None \<longrightarrow>
               returned (check site (snd (cycles site (failedAttempts sys) ws)) w) = GAVE_UP))"
proof -
  have "returned (check site (snd (cycles site (failedAttempts sys) ws)) w) = GAVE_UP"
    if "n + failures ws = 3" "failure (fetched w) \<noteq> None"
    using check_status [OF cycles_counter [OF assms], of ws w] that by simp
  then show ?thesis
    using run_counter [OF assms] cycles_counter [OF assms] cycles_statuses [OF assms]
    by simp
qed

text \<open>
  The configured site from startup: three network errors with three successful checks
  among them, then a fourth network error.
\<close>

theorem counter_never_decreases_witness:
  "prop_get (snd (cycles LibTheatreRoom (failedAttempts (main credentials None sites)) interleaved))
     ''LibTheatreRoom'' = Some (Count 3) \<and>
   GAVE_UP \<notin> set (fst (cycles LibTheatreRoom (failedAttempts (main credentials None sites)) interleaved)) \<and>
   returned (check LibTheatreRoom
      (snd (cycles LibTheatreRoom (failedAttempts (main credentials None sites)) interleaved))
      network_error) = GAVE_UP"
proof -
  have h: "prop_get (failedAttempts (main credentials None sites)) (name LibTheatreRoom) = Some (Count 0)"
    by (simp add: main_started prop_get_def LibTheatreRoom_fields)
  have f: "failures interleaved = 3"
    by (simp add: failures_def interleaved_def worlds)
  show ?thesis
    using counter_never_decreases [OF h, of "[]" interleaved network_error] f
    by (simp add: LibTheatreRoom_fields worlds)
qed

end
